theory Spec2Isabelle
  imports Main "HOL-Library.Char_ord" "HOL-Library.List_Lexorder" "HOL-Library.Product_Lexorder"
begin

section \<open>Dates, times and their text form\<close>

text \<open>
  A Python \<open>datetime\<close> value, field by field. \<open>datetime.now()\<close> carries microseconds;
  \<open>strftime\<close> drops them.
\<close>

record datetime =
  dt_year :: nat
  dt_month :: nat
  dt_day :: nat
  dt_hour :: nat
  dt_minute :: nat
  dt_second :: nat
  dt_microsecond :: nat

text \<open>A calendar date is (year, month, day); a slot time is (hour, minute).\<close>

type_synonym date = "nat \<times> nat \<times> nat"
type_synonym slot_time = "nat \<times> nat"

text \<open>A Python \<open>time\<close> value is (hour, minute, second, microsecond), compared field by field.\<close>

type_synonym time_of_day = "nat \<times> nat \<times> nat \<times> nat"

definition dt_date :: "datetime \<Rightarrow> date" where
  "dt_date dt = (dt_year dt, dt_month dt, dt_day dt)"

definition dt_time :: "datetime \<Rightarrow> time_of_day" where
  "dt_time dt = (dt_hour dt, dt_minute dt, dt_second dt, dt_microsecond dt)"

text \<open>\<open>datetime.strptime(time_str, '%H:%M').time()\<close>: seconds and microseconds are zero.\<close>

definition slot_time_obj :: "slot_time \<Rightarrow> time_of_day" where
  "slot_time_obj t = (fst t, snd t, 0, 0)"

definition digit :: "nat \<Rightarrow> char" where
  "digit n = ''0123456789'' ! (n mod 10)"

definition pad2 :: "nat \<Rightarrow> string" where
  "pad2 n = [digit (n div 10), digit n]"

definition pad4 :: "nat \<Rightarrow> string" where
  "pad4 n = [digit (n div 1000), digit (n div 100), digit (n div 10), digit n]"

text \<open>
  \<open>strftime('%Y-%m-%d %H:%M:%S')\<close>, the text stored in \<open>appointments.appointment_time\<close>
  and passed to the queries (years of four digits).
\<close>

definition strftime_db :: "datetime \<Rightarrow> string" where
  "strftime_db dt =
     pad4 (dt_year dt) @ ''-'' @ pad2 (dt_month dt) @ ''-'' @ pad2 (dt_day dt) @ '' '' @
     pad2 (dt_hour dt) @ '':'' @ pad2 (dt_minute dt) @ '':'' @ pad2 (dt_second dt)"

text \<open>
  \<open>datetime.strptime(f"{date_str} {time_str}", '%d.%m.%Y %H:%M')\<close> on the strings that the
  bot itself renders into its callback data: the handlers below take the date and the
  slot time these strings denote.
\<close>

definition slot_datetime :: "date \<Rightarrow> slot_time \<Rightarrow> datetime" where
  "slot_datetime d t =
     \<lparr>dt_year = fst d, dt_month = fst (snd d), dt_day = snd (snd d),
      dt_hour = fst t, dt_minute = snd t, dt_second = 0, dt_microsecond = 0\<rparr>"

subsection \<open>Adding a \<open>timedelta\<close>\<close>

definition is_leap :: "nat \<Rightarrow> bool" where
  "is_leap y = (y mod 4 = 0 \<and> (y mod 100 \<noteq> 0 \<or> y mod 400 = 0))"

definition days_in_month :: "nat \<Rightarrow> nat \<Rightarrow> nat" where
  "days_in_month y m =
     (if m = 2 then (if is_leap y then 29 else 28)
      else if m = 4 \<or> m = 6 \<or> m = 9 \<or> m = 11 then 30 else 31)"

datatype error = IntegrityError | OverflowError | TypeError

text \<open>\<open>dt + timedelta(days=1)\<close>; a date past 9999-12-31 raises \<open>OverflowError\<close>.\<close>

definition plus_day :: "datetime \<Rightarrow> error + datetime" where
  "plus_day dt =
     (if dt_day dt < days_in_month (dt_year dt) (dt_month dt)
        then Inr (dt\<lparr>dt_day := dt_day dt + 1\<rparr>)
      else if dt_month dt < 12
        then Inr (dt\<lparr>dt_month := dt_month dt + 1, dt_day := 1\<rparr>)
      else if dt_year dt < 9999
        then Inr (dt\<lparr>dt_year := dt_year dt + 1, dt_month := 1, dt_day := 1\<rparr>)
      else Inl OverflowError)"

text \<open>\<open>dt + timedelta(hours=1)\<close>.\<close>

definition plus_hour :: "datetime \<Rightarrow> error + datetime" where
  "plus_hour dt =
     (if dt_hour dt < 23 then Inr (dt\<lparr>dt_hour := dt_hour dt + 1\<rparr>)
      else plus_day (dt\<lparr>dt_hour := 0\<rparr>))"

text \<open>\<open>dt + timedelta(minutes=10)\<close>.\<close>

definition plus_ten_minutes :: "datetime \<Rightarrow> error + datetime" where
  "plus_ten_minutes dt =
     (if dt_minute dt < 50 then Inr (dt\<lparr>dt_minute := dt_minute dt + 10\<rparr>)
      else plus_hour (dt\<lparr>dt_minute := dt_minute dt - 50\<rparr>))"

section \<open>Slot generator\<close>

text \<open>
  \<open>get_available_times\<close>: the \<open>while\<close> loop steps by an hour and a half from 10:00 while
  the hour is below 18 (or exactly 18:00); the second loop keeps the times up to 17:30.
\<close>

function times_loop :: "nat \<Rightarrow> nat \<Rightarrow> slot_time list" where
  "times_loop current_hour current_minute =
     (if current_hour < 18 \<or> (current_hour = 18 \<and> current_minute = 0)
      then (current_hour, current_minute) #
           (if current_minute + 30 \<ge> 60
            then times_loop (current_hour + 1 + 1) (current_minute + 30 - 60)
            else times_loop (current_hour + 1) (current_minute + 30))
      else [])"
  by pat_completeness auto
termination
  by (relation "measure (\<lambda>(h, m). 19 - h)") auto

definition get_available_times :: "slot_time list" where
  "get_available_times = filter (\<lambda>t. t \<le> (17, 30)) (times_loop 10 0)"

text \<open>The button text of a slot, \<open>f"{current_hour:02d}:{current_minute:02d}"\<close>.\<close>

definition time_str :: "slot_time \<Rightarrow> string" where
  "time_str t = pad2 (fst t) @ '':'' @ pad2 (snd t)"

section \<open>The database\<close>

datatype status = Active | Completed | Cancelled

record appointment =
  app_id :: int
  client_id :: int
  service_id :: int
  master_id :: int
  appointment_time :: string
  status :: status
  created_at :: string
  updated_at :: string
  reminder_sent_day :: bool
  reminder_sent_hour :: bool
  reminder_sent_admin :: bool

record client =
  c_id :: int
  c_telegram_id :: int
  c_name :: string

record service =
  s_id :: int
  s_name :: string
  s_duration :: nat
  s_price :: nat

record master =
  m_id :: int
  m_name :: string
  m_active :: bool

text \<open>
  The tables in row order, the telegram ids of the \<open>admins\<close> table, and the
  \<open>AUTOINCREMENT\<close> counters of \<open>clients\<close> and \<open>appointments\<close>.
\<close>

record database =
  clients :: "client list"
  services :: "service list"
  masters :: "master list"
  admins :: "int list"
  appointments :: "appointment list"
  clients_seq :: int
  appointments_seq :: int

text \<open>
  \<open>is_slot_available\<close>: \<open>SELECT COUNT(*) FROM appointments WHERE appointment_time = ?
  AND master_id = ? AND status = 'active'\<close>, then \<open>count == 0\<close>.
\<close>

definition is_slot_available :: "database \<Rightarrow> date \<Rightarrow> slot_time \<Rightarrow> int \<Rightarrow> bool" where
  "is_slot_available db d t mid =
     (length (filter (\<lambda>a. appointment_time a = strftime_db (slot_datetime d t) \<and>
                          master_id a = mid \<and> status a = Active) (appointments db)) = 0)"

text \<open>
  \<open>get_available_slots\<close>, with \<open>datetime.now()\<close> as the argument \<open>now\<close>: the \<open>for\<close> loop
  over the generated times, skipping (\<open>continue\<close>) the times of today that have passed.
\<close>

primrec slots_loop :: "database \<Rightarrow> datetime \<Rightarrow> date \<Rightarrow> int \<Rightarrow> slot_time list \<Rightarrow> slot_time list" where
  "slots_loop db now d mid [] = []"
| "slots_loop db now d mid (t # ts) =
     (if d = dt_date now \<and> slot_time_obj t \<le> dt_time now
        then slots_loop db now d mid ts
      else if is_slot_available db d t mid
        then t # slots_loop db now d mid ts
      else slots_loop db now d mid ts)"

definition get_available_slots :: "database \<Rightarrow> datetime \<Rightarrow> date \<Rightarrow> int \<Rightarrow> slot_time list" where
  "get_available_slots db now d mid = slots_loop db now d mid get_available_times"


section \<open>SQL statements\<close>

text \<open>
  Every statement below is committed right after it is executed. \<open>CURRENT_TIMESTAMP\<close> is
  the argument \<open>ts\<close>.
\<close>

text \<open>\<open>SELECT id FROM clients WHERE telegram_id = ? LIMIT 1\<close>.\<close>

definition find_client :: "database \<Rightarrow> int \<Rightarrow> client option" where
  "find_client db uid = find (\<lambda>c. c_telegram_id c = uid) (clients db)"

text \<open>
  \<open>INSERT INTO clients (telegram_id, username, name)\<close>; \<open>telegram_id\<close> is \<open>UNIQUE\<close>.
\<close>

definition insert_client :: "database \<Rightarrow> int \<Rightarrow> string \<Rightarrow> error + database" where
  "insert_client db uid name =
     (if list_ex (\<lambda>c. c_telegram_id c = uid) (clients db) then Inl IntegrityError
      else Inr (db\<lparr>clients := clients db @
                    [\<lparr>c_id = clients_seq db + 1, c_telegram_id = uid, c_name = name\<rparr>],
                  clients_seq := clients_seq db + 1\<rparr>))"

text \<open>
  \<open>INSERT INTO appointments (client_id, service_id, master_id, appointment_time, status)
  VALUES (?, ?, ?, ?, 'active')\<close> under the table constraint
  \<open>UNIQUE(appointment_time, master_id)\<close>, which looks at every row whatever its status.
  The result is \<open>cursor.lastrowid\<close> and the new database.
\<close>

definition insert_appointment ::
  "database \<Rightarrow> int \<Rightarrow> int \<Rightarrow> int \<Rightarrow> string \<Rightarrow> string \<Rightarrow> error + (int \<times> database)" where
  "insert_appointment db cid sid mid t ts =
     (if list_ex (\<lambda>a. appointment_time a = t \<and> master_id a = mid) (appointments db)
      then Inl IntegrityError
      else Inr (appointments_seq db + 1,
                db\<lparr>appointments := appointments db @
                     [\<lparr>app_id = appointments_seq db + 1, client_id = cid, service_id = sid,
                       master_id = mid, appointment_time = t, status = Active,
                       created_at = ts, updated_at = ts, reminder_sent_day = False,
                       reminder_sent_hour = False, reminder_sent_admin = False\<rparr>],
                   appointments_seq := appointments_seq db + 1\<rparr>))"

text \<open>\<open>UPDATE appointments SET status = ?, updated_at = CURRENT_TIMESTAMP WHERE id = ?\<close>.\<close>

definition update_status :: "database \<Rightarrow> int \<Rightarrow> status \<Rightarrow> string \<Rightarrow> database" where
  "update_status db i st ts =
     db\<lparr>appointments :=
          map (\<lambda>a. if app_id a = i then a\<lparr>status := st, updated_at := ts\<rparr> else a)
            (appointments db)\<rparr>"

datatype reminder_kind = DayKind | HourKind | AdminKind

fun flag_of :: "reminder_kind \<Rightarrow> appointment \<Rightarrow> bool" where
  "flag_of DayKind a = reminder_sent_day a"
| "flag_of HourKind a = reminder_sent_hour a"
| "flag_of AdminKind a = reminder_sent_admin a"

fun raise_flag :: "reminder_kind \<Rightarrow> appointment \<Rightarrow> appointment" where
  "raise_flag DayKind a = a\<lparr>reminder_sent_day := True\<rparr>"
| "raise_flag HourKind a = a\<lparr>reminder_sent_hour := True\<rparr>"
| "raise_flag AdminKind a = a\<lparr>reminder_sent_admin := True\<rparr>"

text \<open>\<open>UPDATE appointments SET reminder_sent_day = 1 WHERE id = ?\<close> and its two siblings.\<close>

definition set_flag :: "reminder_kind \<Rightarrow> database \<Rightarrow> int \<Rightarrow> database" where
  "set_flag k db i =
     db\<lparr>appointments := map (\<lambda>a. if app_id a = i then raise_flag k a else a) (appointments db)\<rparr>"

definition terminal :: "status \<Rightarrow> bool" where
  "terminal st = (st = Completed \<or> st = Cancelled)"

text \<open>
  \<open>DELETE FROM appointments WHERE client_id = ? AND status IN ('completed', 'cancelled')\<close>
  with \<open>cursor.rowcount\<close>.
\<close>

definition delete_history :: "database \<Rightarrow> int \<Rightarrow> nat \<times> database" where
  "delete_history db cid =
     (length (filter (\<lambda>a. client_id a = cid \<and> terminal (status a)) (appointments db)),
      db\<lparr>appointments :=
           filter (\<lambda>a. \<not> (client_id a = cid \<and> terminal (status a))) (appointments db)\<rparr>)"

text \<open>
  The joins \<open>JOIN clients c ON a.client_id = c.id JOIN services s ON a.service_id = s.id
  JOIN masters m ON a.master_id = m.id\<close>: each \<open>id\<close> is a primary key, so a row of
  \<open>appointments\<close> joins with at most one row of each table, and with none it drops out.
\<close>

definition join_client :: "database \<Rightarrow> appointment \<Rightarrow> client option" where
  "join_client db a = find (\<lambda>c. c_id c = client_id a) (clients db)"

definition join_row ::
  "database \<Rightarrow> appointment \<Rightarrow> (appointment \<times> client \<times> service \<times> master) option" where
  "join_row db a =
     (case join_client db a of None \<Rightarrow> None
      | Some c \<Rightarrow>
        (case find (\<lambda>s. s_id s = service_id a) (services db) of None \<Rightarrow> None
         | Some s \<Rightarrow>
           (case find (\<lambda>m. m_id m = master_id a) (masters db) of None \<Rightarrow> None
            | Some m \<Rightarrow> Some (a, c, s, m))))"

text \<open>The joined query \<open>WHERE a.id = ?\<close> followed by \<open>fetchone()\<close>.\<close>

definition fetch_joined ::
  "database \<Rightarrow> int \<Rightarrow> (appointment \<times> client \<times> service \<times> master) option" where
  "fetch_joined db i =
     (case List.map_filter (join_row db) (filter (\<lambda>a. app_id a = i) (appointments db)) of
        [] \<Rightarrow> None
      | r # _ \<Rightarrow> Some r)"

section \<open>Notifications\<close>

datatype actor = ByClient | ByAdmin

text \<open>What a message is about; the second component of a notification. The first is the chat.\<close>

datatype notice =
    NewAppointmentNotice int
  | CancellationNotice int actor
  | ReviewRequest int
  | Reminder reminder_kind int

type_synonym notification = "int \<times> notice"

text \<open>\<open>send_admin_notification\<close>: one message to every row of \<open>admins\<close>.\<close>

definition send_admin_notification :: "database \<Rightarrow> notice \<Rightarrow> notification list" where
  "send_admin_notification db n = map (\<lambda>admin_id. (admin_id, n)) (admins db)"

definition send_new_appointment_notification :: "database \<Rightarrow> int \<Rightarrow> notification list" where
  "send_new_appointment_notification db i =
     (case fetch_joined db i of None \<Rightarrow> []
      | Some r \<Rightarrow> send_admin_notification db (NewAppointmentNotice i))"

definition send_cancellation_notification :: "database \<Rightarrow> int \<Rightarrow> actor \<Rightarrow> notification list" where
  "send_cancellation_notification db i cancelled_by =
     (case fetch_joined db i of None \<Rightarrow> []
      | Some r \<Rightarrow> send_admin_notification db (CancellationNotice i cancelled_by))"

text \<open>
  \<open>ask_for_review\<close>: the message to the client of the appointment; a failure to send is
  caught and logged there.
\<close>

definition ask_for_review :: "database \<Rightarrow> int \<Rightarrow> notification list" where
  "ask_for_review db i =
     (case fetch_joined db i of None \<Rightarrow> []
      | Some (a, c, s, m) \<Rightarrow> [(c_telegram_id c, ReviewRequest i)])"

section \<open>Handlers\<close>

text \<open>The text a handler puts on the screen of its caller.\<close>

datatype reply =
    SlotTakenMsg
  | AppointmentCreatedMsg int
  | NoMsg
  | NotFoundOrCancelledMsg
  | NotOwnerMsg
  | CancelledMsg int
  | CompletedMsg int
  | AdminCancelledMsg int
  | ClientNotFoundMsg
  | HistoryClearedMsg nat

text \<open>The first lines of \<open>create_appointment\<close>: look the client up, insert it when absent.\<close>

definition get_or_create_client :: "database \<Rightarrow> int \<Rightarrow> string \<Rightarrow> error + (int \<times> database)" where
  "get_or_create_client db uid name =
     (case find_client db uid of
        Some c \<Rightarrow> Inr (c_id c, db)
      | None \<Rightarrow>
        (case insert_client db uid name of
           Inl e \<Rightarrow> Inl e
         | Inr db1 \<Rightarrow>
           (case find_client db1 uid of
              None \<Rightarrow> Inl TypeError
            | Some c \<Rightarrow> Inr (c_id c, db1))))"

text \<open>
  \<open>create_appointment\<close>. The result is what the handler raised (\<open>Inl\<close>) or showed
  (\<open>Inr\<close>), the notifications it sent and the database it left. The handler first asks
  \<open>is_slot_available\<close>; \<open>create_insert\<close> is the rest of it, from the \<open>INSERT\<close> on.
  Nothing in the handler catches the error of the \<open>INSERT\<close>.
\<close>

definition create_insert ::
  "database \<Rightarrow> string \<Rightarrow> int \<Rightarrow> int \<Rightarrow> int \<Rightarrow> date \<Rightarrow> slot_time \<Rightarrow>
   (error + reply) \<times> notification list \<times> database" where
  "create_insert db ts cid sid mid selected_date selected_time =
     (case insert_appointment db cid sid mid
             (strftime_db (slot_datetime selected_date selected_time)) ts of
        Inl e \<Rightarrow> (Inl e, [], db)
      | Inr (i, db2) \<Rightarrow>
        if find (\<lambda>s. s_id s = sid) (services db2) \<noteq> None \<and>
           find (\<lambda>m. m_id m = mid) (masters db2) \<noteq> None
        then (Inr (AppointmentCreatedMsg i), send_new_appointment_notification db2 i, db2)
        else (Inr NoMsg, [], db2))"

definition create_appointment ::
  "database \<Rightarrow> string \<Rightarrow> int \<Rightarrow> string \<Rightarrow> int \<Rightarrow> int \<Rightarrow> date \<Rightarrow> slot_time \<Rightarrow>
   (error + reply) \<times> notification list \<times> database" where
  "create_appointment db ts uid name sid mid selected_date selected_time =
     (case get_or_create_client db uid name of
        Inl e \<Rightarrow> (Inl e, [], db)
      | Inr (cid, db1) \<Rightarrow>
        if \<not> is_slot_available db1 selected_date selected_time mid
        then (Inr SlotTakenMsg, [], db1)
        else create_insert db1 ts cid sid mid selected_date selected_time)"


text \<open>
  \<open>admin_complete_appointment\<close>: the update, ten minutes of \<open>asyncio.sleep\<close>, the review
  request, the reply.
\<close>

definition admin_complete_appointment ::
  "database \<Rightarrow> string \<Rightarrow> int \<Rightarrow> reply \<times> notification list \<times> database" where
  "admin_complete_appointment db ts i =
     (let db1 = update_status db i Completed ts
      in (CompletedMsg i, ask_for_review db1 i, db1))"

definition admin_cancel_appointment ::
  "database \<Rightarrow> string \<Rightarrow> int \<Rightarrow> reply \<times> notification list \<times> database" where
  "admin_cancel_appointment db ts i =
     (let db1 = update_status db i Cancelled ts
      in (AdminCancelledMsg i, send_cancellation_notification db1 i ByAdmin, db1))"

definition clear_history :: "database \<Rightarrow> int \<Rightarrow> reply \<times> database" where
  "clear_history db uid =
     (case find_client db uid of
        None \<Rightarrow> (ClientNotFoundMsg, db)
      | Some c \<Rightarrow>
        (case delete_history db (c_id c) of
           (deleted_count, db1) \<Rightarrow> (HistoryClearedMsg deleted_count, db1)))"


section \<open>The reminder sweep\<close>

text \<open>
  One cycle of \<open>schedule_reminders\<close>, with \<open>datetime.now()\<close> read once at its start
  (\<open>now\<close>). The cycle waits inside its first loop, so the model carries the seconds
  elapsed since the start of the cycle: \<open>clock el\<close> is \<open>CURRENT_TIMESTAMP\<close> after
  \<open>el\<close> seconds, and every action of the cycle is recorded with the second it happens at.
\<close>

datatype action = CompleteAppointment int | SendMessage int notice

type_synonym trace = "(nat \<times> action) list"

text \<open>
  \<open>SELECT a.id, c.telegram_id FROM appointments a JOIN clients c ON a.client_id = c.id
  WHERE a.appointment_time < ? AND a.status = 'active'\<close>; the times are compared as text.
\<close>

definition past_apps :: "database \<Rightarrow> string \<Rightarrow> (int \<times> int) list" where
  "past_apps db now_s =
     List.map_filter
       (\<lambda>a. if appointment_time a < now_s \<and> status a = Active
            then map_option (\<lambda>c. (app_id a, c_telegram_id c)) (join_client db a)
            else None)
       (appointments db)"

text \<open>
  The loop over \<open>past_apps\<close>: the update, \<open>await asyncio.sleep(600)\<close>, then
  \<open>ask_for_review\<close>, for one appointment after the other.
\<close>

fun complete_loop ::
  "(nat \<Rightarrow> string) \<Rightarrow> nat \<Rightarrow> (int \<times> int) list \<Rightarrow> database \<Rightarrow> trace \<times> nat \<times> database" where
  "complete_loop clock el [] db = ([], el, db)"
| "complete_loop clock el ((i, telegram_id) # rest) db =
     (let db1 = update_status db i Completed (clock el);
          el1 = el + 600;
          asked = map (\<lambda>(chat, n). (el1, SendMessage chat n)) (ask_for_review db1 i)
      in case complete_loop clock el1 rest db1 of
           (tr, el2, db2) \<Rightarrow> ((el, CompleteAppointment i) # asked @ tr, el2, db2))"

text \<open>
  The bounds of the three reminder queries: \<open>now\<close> plus a day, an hour or ten minutes,
  with the lower fields replaced by their least and greatest values.
\<close>

fun window :: "reminder_kind \<Rightarrow> datetime \<Rightarrow> error + (string \<times> string)" where
  "window DayKind now =
     (case plus_day now of Inl e \<Rightarrow> Inl e
      | Inr day_later \<Rightarrow>
          Inr (strftime_db (day_later\<lparr>dt_hour := 0, dt_minute := 0, dt_second := 0\<rparr>),
               strftime_db (day_later\<lparr>dt_hour := 23, dt_minute := 59, dt_second := 59\<rparr>)))"
| "window HourKind now =
     (case plus_hour now of Inl e \<Rightarrow> Inl e
      | Inr hour_later \<Rightarrow>
          Inr (strftime_db (hour_later\<lparr>dt_minute := 0, dt_second := 0\<rparr>),
               strftime_db (hour_later\<lparr>dt_minute := 59, dt_second := 59\<rparr>)))"
| "window AdminKind now =
     (case plus_ten_minutes now of Inl e \<Rightarrow> Inl e
      | Inr ten_min_later \<Rightarrow>
          Inr (strftime_db (ten_min_later\<lparr>dt_second := 0\<rparr>),
               strftime_db (ten_min_later\<lparr>dt_second := 59\<rparr>)))"

text \<open>
  The reminder query of one kind: the joined rows \<open>WHERE a.appointment_time BETWEEN ? AND ?
  AND a.status = 'active' AND a.reminder_sent_... = 0\<close>.
\<close>

definition due_rows ::
  "reminder_kind \<Rightarrow> string \<Rightarrow> string \<Rightarrow> database \<Rightarrow>
   (appointment \<times> client \<times> service \<times> master) list" where
  "due_rows k lo hi db =
     List.map_filter
       (\<lambda>a. if lo \<le> appointment_time a \<and> appointment_time a \<le> hi \<and>
               status a = Active \<and> \<not> flag_of k a
            then join_row db a else None)
       (appointments db)"

text \<open>
  Whom a reminder goes to: the client (\<open>send_notification\<close>) for the day and hour
  reminders, every admin (\<open>send_admin_notification\<close>) for the ten-minute one.
\<close>

fun reminder_messages ::
  "reminder_kind \<Rightarrow> database \<Rightarrow> appointment \<times> client \<times> service \<times> master \<Rightarrow> notification list" where
  "reminder_messages AdminKind db (a, c, s, m) =
     send_admin_notification db (Reminder AdminKind (app_id a))"
| "reminder_messages k db (a, c, s, m) = [(c_telegram_id c, Reminder k (app_id a))]"

text \<open>The loop over the rows of a reminder query: send, then set the flag of the row.\<close>

fun remind_loop ::
  "reminder_kind \<Rightarrow> nat \<Rightarrow> (appointment \<times> client \<times> service \<times> master) list \<Rightarrow> database \<Rightarrow>
   trace \<times> database" where
  "remind_loop k el [] db = ([], db)"
| "remind_loop k el (r # rest) db =
     (let sent = map (\<lambda>(chat, n). (el, SendMessage chat n)) (reminder_messages k db r);
          db1 = set_flag k db (app_id (fst r))
      in case remind_loop k el rest db1 of (tr, db2) \<Rightarrow> (sent @ tr, db2))"

definition remind_phase ::
  "reminder_kind \<Rightarrow> datetime \<Rightarrow> nat \<Rightarrow> database \<Rightarrow> error option \<times> trace \<times> database" where
  "remind_phase k now el db =
     (case window k now of
        Inl e \<Rightarrow> (Some e, [], db)
      | Inr (lo, hi) \<Rightarrow>
        (case remind_loop k el (due_rows k lo hi db) db of (tr, db1) \<Rightarrow> (None, tr, db1)))"

text \<open>
  The body of the \<open>try\<close> in \<open>schedule_reminders\<close>. An exception ends the cycle where it
  is raised (the \<open>except\<close> logs it); what was committed before stays.
\<close>

definition sweep ::
  "datetime \<Rightarrow> (nat \<Rightarrow> string) \<Rightarrow> database \<Rightarrow> error option \<times> trace \<times> database" where
  "sweep now clock db =
     (case complete_loop clock 0 (past_apps db (strftime_db now)) db of
        (tr1, el, db1) \<Rightarrow>
        (case remind_phase DayKind now el db1 of
           (Some e, tr2, db2) \<Rightarrow> (Some e, tr1 @ tr2, db2)
         | (None, tr2, db2) \<Rightarrow>
           (case remind_phase HourKind now el db2 of
              (Some e, tr3, db3) \<Rightarrow> (Some e, tr1 @ tr2 @ tr3, db3)
            | (None, tr3, db3) \<Rightarrow>
              (case remind_phase AdminKind now el db3 of
                 (e, tr4, db4) \<Rightarrow> (e, tr1 @ tr2 @ tr3 @ tr4, db4)))))"

text \<open>The reminders of one kind in a trace, as (chat, appointment) pairs.\<close>

fun reminder_of :: "reminder_kind \<Rightarrow> nat \<times> action \<Rightarrow> (int \<times> int) option" where
  "reminder_of k (el, SendMessage chat (Reminder k' i)) = (if k' = k then Some (chat, i) else None)"
| "reminder_of k (el, x) = None"

definition reminders_sent :: "reminder_kind \<Rightarrow> trace \<Rightarrow> (int \<times> int) list" where
  "reminders_sent k tr = List.map_filter (reminder_of k) tr"

section \<open>Reachable databases\<close>

text \<open>
  \<open>init_db\<close> on a fresh file: empty \<open>clients\<close> and \<open>appointments\<close>, the seeded services
  and masters (their names transliterated), the default administrator.
\<close>

definition init_db :: database where
  "init_db =
     \<lparr>clients = [],
      services =
        [\<lparr>s_id = 1, s_name = ''Klassicheskiy massazh'', s_duration = 60, s_price = 1000\<rparr>,
         \<lparr>s_id = 2, s_name = ''Sportivnyy massazh'', s_duration = 60, s_price = 1000\<rparr>,
         \<lparr>s_id = 3, s_name = ''Perkussionnyy massazh'', s_duration = 60, s_price = 1500\<rparr>,
         \<lparr>s_id = 4, s_name = ''Vakuumnyy massazh'', s_duration = 45, s_price = 1500\<rparr>],
      masters =
        [\<lparr>m_id = 1, m_name = ''Ilya'', m_active = True\<rparr>,
         \<lparr>m_id = 2, m_name = ''Bogdan'', m_active = True\<rparr>],
      admins = [1627345808],
      appointments = [],
      clients_seq = 0,
      appointments_seq = 0\<rparr>"


text \<open>The active appointments of a master at a time.\<close>

definition active_at :: "database \<Rightarrow> string \<Rightarrow> int \<Rightarrow> appointment list" where
  "active_at db tm mid =
     filter (\<lambda>a. appointment_time a = tm \<and> master_id a = mid \<and> status a = Active)
       (appointments db)"

section \<open>Concurrent bookings of one slot\<close>

text \<open>
  Several calls of \<open>create_appointment\<close> for the same master and time, each with its client
  already looked up. A call is first before its availability check, then before its
  \<open>INSERT\<close>, then finished with its result; a schedule says whose turn it is.
\<close>

datatype pstate = AtCheck | AtInsert | Finished "error + reply"

record booking =
  b_client :: int
  b_service :: int
  b_ts :: string
  b_state :: pstate

definition advance :: "int \<Rightarrow> date \<Rightarrow> slot_time \<Rightarrow> booking \<Rightarrow> database \<Rightarrow> booking \<times> database" where
  "advance mid d t b db =
     (case b_state b of
        AtCheck \<Rightarrow>
          if \<not> is_slot_available db d t mid
          then (b\<lparr>b_state := Finished (Inr SlotTakenMsg)\<rparr>, db)
          else (b\<lparr>b_state := AtInsert\<rparr>, db)
      | AtInsert \<Rightarrow>
          (case create_insert db (b_ts b) (b_client b) (b_service b) mid d t of
             (r, ns, db') \<Rightarrow> (b\<lparr>b_state := Finished r\<rparr>, db'))
      | Finished r \<Rightarrow> (b, db))"

fun run_schedule ::
  "int \<Rightarrow> date \<Rightarrow> slot_time \<Rightarrow> nat list \<Rightarrow> booking list \<Rightarrow> database \<Rightarrow> booking list \<times> database" where
  "run_schedule mid d t [] bs db = (bs, db)"
| "run_schedule mid d t (k # ks) bs db =
     (if k < length bs
      then (case advance mid d t (bs ! k) db of
              (b', db') \<Rightarrow> run_schedule mid d t ks (bs[k := b']) db')
      else run_schedule mid d t ks bs db)"




section \<open>Constraints of the schema\<close>

text \<open>The columns of \<open>UNIQUE(appointment_time, master_id)\<close>.\<close>

definition slot_key :: "appointment \<Rightarrow> string \<times> int" where
  "slot_key a = (appointment_time a, master_id a)"

text \<open>
  What the schema and the handlers keep true of the \<open>appointments\<close> table: the unique
  constraint, the primary key below the \<open>AUTOINCREMENT\<close> counter, and a row of \<open>clients\<close>
  for every \<open>client_id\<close> (the handlers insert the client before the appointment and no
  client is ever deleted).
\<close>

definition wf_db :: "database \<Rightarrow> bool" where
  "wf_db db =
     (distinct (map slot_key (appointments db)) \<and>
      distinct (map app_id (appointments db)) \<and>
      list_all (\<lambda>a. app_id a \<le> appointments_seq db) (appointments db) \<and>
      list_all (\<lambda>a. list_ex (\<lambda>c. c_id c = client_id a) (clients db)) (appointments db))"



text \<open>
  When the loop over \<open>past_apps\<close> stamps the row \<open>i\<close>: at the turn of \<open>i\<close> in the list,
  ten minutes after the turn before it.
\<close>

fun stamp_of :: "(nat \<Rightarrow> string) \<Rightarrow> nat \<Rightarrow> (int \<times> int) list \<Rightarrow> int \<Rightarrow> string option" where
  "stamp_of clock el [] i = None"
| "stamp_of clock el ((j, telegram_id) # rest) i =
     (if i = j then Some (clock el) else stamp_of clock (el + 600) rest i)"

text \<open>A row without its reminder flags.\<close>

definition erase_flags :: "appointment \<Rightarrow> appointment" where
  "erase_flags a =
     a\<lparr>reminder_sent_day := False, reminder_sent_hour := False, reminder_sent_admin := False\<rparr>"

text \<open>The \<open>WHERE\<close> clause of a reminder query together with its joins.\<close>

definition is_due :: "reminder_kind \<Rightarrow> string \<Rightarrow> string \<Rightarrow> database \<Rightarrow> appointment \<Rightarrow> bool" where
  "is_due k lo hi db a =
     (lo \<le> appointment_time a \<and> appointment_time a \<le> hi \<and> status a = Active \<and>
      \<not> flag_of k a \<and> join_row db a \<noteq> None)"

section \<open>Example data\<close>

definition now0 :: datetime where
  "now0 = \<lparr>dt_year = 2024, dt_month = 6, dt_day = 10, dt_hour = 13, dt_minute = 0,
           dt_second = 0, dt_microsecond = 0\<rparr>"

definition mk_app :: "int \<Rightarrow> int \<Rightarrow> string \<Rightarrow> status \<Rightarrow> appointment" where
  "mk_app i cid tm st =
     \<lparr>app_id = i, client_id = cid, service_id = 1, master_id = 1, appointment_time = tm,
      status = st, created_at = ''2024-05-01 08:00:00'', updated_at = ''2024-05-01 08:00:00'',
      reminder_sent_day = False, reminder_sent_hour = False, reminder_sent_admin = False\<rparr>"

text \<open>A client with three completed, two cancelled and one active appointment, and another client.\<close>

definition history_db :: database where
  "history_db =
     init_db\<lparr>clients := [\<lparr>c_id = 1, c_telegram_id = 501, c_name = ''Anna''\<rparr>,
                         \<lparr>c_id = 2, c_telegram_id = 502, c_name = ''Boris''\<rparr>],
             clients_seq := 2,
             appointments :=
               [mk_app 1 1 ''2024-05-02 10:00:00'' Completed,
                mk_app 2 1 ''2024-05-03 10:00:00'' Completed,
                mk_app 3 2 ''2024-05-03 11:30:00'' Completed,
                mk_app 4 1 ''2024-05-04 10:00:00'' Cancelled,
                mk_app 5 1 ''2024-05-05 10:00:00'' Completed,
                mk_app 6 1 ''2024-05-06 10:00:00'' Cancelled,
                mk_app 7 1 ''2024-06-10 14:30:00'' Active],
             appointments_seq := 7\<rparr>"

text \<open>Two calls of \<open>create_appointment\<close> for the same slot, both before their check.\<close>

definition two_bookings :: "booking list" where
  "two_bookings =
     [\<lparr>b_client = 1, b_service = 1, b_ts = ''2024-06-01 12:00:00'', b_state = AtCheck\<rparr>,
      \<lparr>b_client = 2, b_service = 2, b_ts = ''2024-06-01 12:00:00'', b_state = AtCheck\<rparr>]"

text \<open>
  Two active appointments in the past, one tomorrow, a cancelled one in the past and one
  at the very second of the sweep; the sweep runs on 2024-06-02 at 10:00:00.
\<close>

definition sweep_db :: database where
  "sweep_db =
     init_db\<lparr>clients := [\<lparr>c_id = 1, c_telegram_id = 501, c_name = ''Anna''\<rparr>,
                         \<lparr>c_id = 2, c_telegram_id = 502, c_name = ''Boris''\<rparr>],
             clients_seq := 2,
             appointments :=
               [mk_app 1 1 ''2024-06-01 09:00:00'' Active,
                mk_app 2 2 ''2024-06-01 16:00:00'' Active,
                mk_app 3 1 ''2024-06-03 14:30:00'' Active,
                mk_app 4 2 ''2024-05-30 10:00:00'' Cancelled,
                mk_app 5 2 ''2024-06-02 10:00:00'' Active],
             appointments_seq := 5\<rparr>"

definition now1 :: datetime where
  "now1 = \<lparr>dt_year = 2024, dt_month = 6, dt_day = 2, dt_hour = 10, dt_minute = 0,
           dt_second = 0, dt_microsecond = 0\<rparr>"

text \<open>\<open>CURRENT_TIMESTAMP\<close> (UTC) during that sweep, as far as the sweep reads it.\<close>

definition clock1 :: "nat \<Rightarrow> string" where
  "clock1 el = (if el = 0 then ''2024-06-02 07:00:00''
                else if el = 600 then ''2024-06-02 07:10:00'' else ''2024-06-02 07:20:00'')"

text \<open>
  Python's \<open><\<close> on two \<open>datetime\<close> values: the fields compared in order, microseconds
  included.
\<close>

definition dt_less :: "datetime \<Rightarrow> datetime \<Rightarrow> bool" where
  "dt_less a b =
     ((dt_year a, dt_month a, dt_day a, dt_hour a, dt_minute a, dt_second a, dt_microsecond a) <
      (dt_year b, dt_month b, dt_day b, dt_hour b, dt_minute b, dt_second b, dt_microsecond b))"

text \<open>The same sweep one microsecond after 10:00:00.\<close>

definition now1_late :: datetime where
  "now1_late = now1\<lparr>dt_microsecond := 1\<rparr>"



section \<open>The slot queries\<close>

lemma get_available_times_eq:
  "get_available_times = [(10, 0), (11, 30), (13, 0), (14, 30), (16, 0), (17, 30)]"
  by (simp add: get_available_times_def)

lemma slots_loop_set:
  "set (slots_loop db now d mid ts) =
   {t \<in> set ts. \<not> (d = dt_date now \<and> slot_time_obj t \<le> dt_time now) \<and> is_slot_available db d t mid}"
  by (induction ts) auto

lemma slots_loop_other_day:
  "d \<noteq> dt_date now \<Longrightarrow> slots_loop db now d mid ts = filter (\<lambda>t. is_slot_available db d t mid) ts"
  by (induction ts) auto

text \<open>
  Claim C5. Asked for today's date, \<open>get_available_slots\<close> returns no time of day that is
  at or before the time of day of \<open>now\<close>; asked for any other date it applies no filter
  against the clock and returns every generated time whose slot is available.
\<close>

theorem same_day_past_time_filtering:
  "(\<forall>t \<in> set (get_available_slots db now (dt_date now) mid). \<not> slot_time_obj t \<le> dt_time now) \<and>
   (d \<noteq> dt_date now \<longrightarrow>
      get_available_slots db now d mid =
        filter (\<lambda>t. is_slot_available db d t mid) get_available_times)"
  by (simp add: get_available_slots_def slots_loop_set slots_loop_other_day)

theorem same_day_past_time_filtering_witness:
  "get_available_slots history_db now0 (dt_date now0) 1 = [(16, 0), (17, 30)] \<and>
   \<not> slot_time_obj (16, 0) \<le> dt_time now0 \<and> \<not> slot_time_obj (17, 30) \<le> dt_time now0 \<and>
   (2024, 6, 11) \<noteq> dt_date now0 \<and>
   get_available_slots history_db now0 (2024, 6, 11) 1 =
     [(10, 0), (11, 30), (13, 0), (14, 30), (16, 0), (17, 30)]"
proof -
  have a: "get_available_slots history_db now0 (dt_date now0) 1 = [(16, 0), (17, 30)]"
    by code_simp
  have b: "(2024, 6, 11) \<noteq> dt_date now0" by (simp add: dt_date_def now0_def)
  have c: "filter (\<lambda>t. is_slot_available history_db (2024, 6, 11) t 1) get_available_times =
           [(10, 0), (11, 30), (13, 0), (14, 30), (16, 0), (17, 30)]"
    by code_simp
  from same_day_past_time_filtering [of history_db now0 1 "(2024, 6, 11)"] a b c
  show ?thesis by simp
qed

section \<open>Bookings\<close>

lemma find_append_new:
  "find P xs = None \<Longrightarrow> P x \<Longrightarrow> find P (xs @ [x]) = Some x"
  by (induction xs) (auto split: if_splits)

lemma get_or_create_client_total:
  "\<exists>cid db1. get_or_create_client db uid name = Inr (cid, db1) \<and>
      appointments db1 = appointments db \<and> services db1 = services db \<and>
      masters db1 = masters db \<and> admins db1 = admins db \<and>
      appointments_seq db1 = appointments_seq db \<and>
      list_ex (\<lambda>c. c_id c = cid) (clients db1)"
proof (cases "find_client db uid")
  case None
  then have "\<not> list_ex (\<lambda>c. c_telegram_id c = uid) (clients db)"
    by (simp add: find_client_def find_None_iff list_ex_iff)
  with None show ?thesis
    by (simp add: get_or_create_client_def insert_client_def find_client_def find_append_new)
next
  case (Some c)
  then have "c \<in> set (clients db)"
    by (auto simp: find_client_def find_Some_iff)
  with Some show ?thesis
    by (auto simp: get_or_create_client_def list_ex_iff)
qed

lemma not_active_terminal: "st \<noteq> Active \<Longrightarrow> terminal st"
  by (cases st) (simp_all add: terminal_def)

lemma terminal_row_raises:
  assumes "list_ex (\<lambda>a. appointment_time a = strftime_db (slot_datetime d t) \<and> master_id a = mid \<and>
                        (status a = Cancelled \<or> status a = Completed)) (appointments db)"
    and "\<not> list_ex (\<lambda>a. appointment_time a = strftime_db (slot_datetime d t) \<and> master_id a = mid \<and>
                        status a = Active) (appointments db)"
  shows "is_slot_available db d t mid \<and>
         (\<exists>db'. create_appointment db ts uid name sid mid d t = (Inl IntegrityError, [], db') \<and>
                appointments db' = appointments db)"
proof -
  obtain cid db1 where g: "get_or_create_client db uid name = Inr (cid, db1)"
    and a: "appointments db1 = appointments db"
    using get_or_create_client_total by blast
  have avail: "is_slot_available db d t mid"
    using assms(2) by (auto simp: is_slot_available_def list_ex_iff filter_empty_conv)
  then have avail1: "is_slot_available db1 d t mid"
    by (simp add: is_slot_available_def a)
  have taken: "list_ex (\<lambda>a. appointment_time a = strftime_db (slot_datetime d t) \<and> master_id a = mid)
                 (appointments db1)"
    using assms(1) by (auto simp: a list_ex_iff)
  show ?thesis
    using g avail avail1 taken a
    by (simp add: create_appointment_def create_insert_def insert_appointment_def)
qed

lemma create_on_free_slot:
  assumes "\<not> list_ex (\<lambda>a. appointment_time a = strftime_db (slot_datetime d t) \<and> master_id a = mid)
               (appointments db)"
  shows "\<exists>r ns db'. create_appointment db ts uid name sid mid d t = (Inr r, ns, db') \<and>
           length (active_at db' (strftime_db (slot_datetime d t)) mid) = 1"
proof -
  obtain cid db1 where g: "get_or_create_client db uid name = Inr (cid, db1)"
    and a: "appointments db1 = appointments db"
    using get_or_create_client_total by blast
  have none: "filter (\<lambda>a. appointment_time a = strftime_db (slot_datetime d t) \<and> master_id a = mid \<and>
                 status a = Active) (appointments db) = []"
    using assms by (auto simp: list_ex_iff filter_empty_conv)
  then have avail1: "is_slot_available db1 d t mid"
    by (simp add: is_slot_available_def a)
  show ?thesis
    using g avail1 assms a none
    by (simp add: create_appointment_def create_insert_def insert_appointment_def active_at_def)
qed

text \<open>
  Claim C10. The unique constraint looks at rows of every status. Where a cancelled or
  completed row holds (time, master) and no active row does, \<open>is_slot_available\<close> answers
  true and \<open>create_appointment\<close> ends in the \<open>IntegrityError\<close> of its \<open>INSERT\<close>, which it
  does not catch, leaving the appointments as they were. Once the owner of the old rows has
  cleared the history, the same booking succeeds.
\<close>

theorem terminal_row_blocks_rebooking:
  assumes "list_ex (\<lambda>a. appointment_time a = strftime_db (slot_datetime d t) \<and> master_id a = mid \<and>
                        (status a = Cancelled \<or> status a = Completed)) (appointments db)"
    and "\<not> list_ex (\<lambda>a. appointment_time a = strftime_db (slot_datetime d t) \<and> master_id a = mid \<and>
                        status a = Active) (appointments db)"
  shows "is_slot_available db d t mid \<and>
         (\<exists>db'. create_appointment db ts uid name sid mid d t = (Inl IntegrityError, [], db') \<and>
                appointments db' = appointments db) \<and>
         (\<forall>owner c. find_client db owner = Some c \<and>
              list_all (\<lambda>a. appointment_time a = strftime_db (slot_datetime d t) \<and> master_id a = mid
                            \<longrightarrow> client_id a = c_id c) (appointments db) \<longrightarrow>
            (\<exists>r ns db'. create_appointment (snd (clear_history db owner)) ts uid name sid mid d t =
                          (Inr r, ns, db') \<and>
                        length (active_at db' (strftime_db (slot_datetime d t)) mid) = 1))"
proof (intro conjI allI impI)
  show "is_slot_available db d t mid"
    using terminal_row_raises [OF assms] by blast
  show "\<exists>db'. create_appointment db ts uid name sid mid d t = (Inl IntegrityError, [], db') \<and>
                appointments db' = appointments db"
    using terminal_row_raises [OF assms] by blast
next
  fix owner c
  assume h: "find_client db owner = Some c \<and>
              list_all (\<lambda>a. appointment_time a = strftime_db (slot_datetime d t) \<and> master_id a = mid
                            \<longrightarrow> client_id a = c_id c) (appointments db)"
  have "\<not> list_ex (\<lambda>a. appointment_time a = strftime_db (slot_datetime d t) \<and> master_id a = mid)
               (appointments (snd (clear_history db owner)))"
    using h assms(2) not_active_terminal
    by (auto simp: clear_history_def delete_history_def list_ex_iff list_all_iff)
  then show "\<exists>r ns db'. create_appointment (snd (clear_history db owner)) ts uid name sid mid d t =
                          (Inr r, ns, db') \<and>
                        length (active_at db' (strftime_db (slot_datetime d t)) mid) = 1"
    by (rule create_on_free_slot)
qed

theorem terminal_row_blocks_rebooking_witness:
  "list_ex (\<lambda>a. appointment_time a = strftime_db (slot_datetime (2024, 5, 4) (10, 0)) \<and>
                master_id a = 1 \<and> (status a = Cancelled \<or> status a = Completed))
     (appointments history_db) \<and>
   \<not> list_ex (\<lambda>a. appointment_time a = strftime_db (slot_datetime (2024, 5, 4) (10, 0)) \<and>
                master_id a = 1 \<and> status a = Active) (appointments history_db) \<and>
   is_slot_available history_db (2024, 5, 4) (10, 0) 1 \<and>
   fst (create_appointment history_db ''2024-05-10 09:00:00'' 502 ''Boris'' 1 1 (2024, 5, 4) (10, 0)) =
     Inl IntegrityError \<and>
   fst (create_appointment (snd (clear_history history_db 501)) ''2024-05-10 09:00:00''
          502 ''Boris'' 1 1 (2024, 5, 4) (10, 0)) = Inr (AppointmentCreatedMsg 8)"
proof -
  have h1: "list_ex (\<lambda>a. appointment_time a = strftime_db (slot_datetime (2024, 5, 4) (10, 0)) \<and>
                master_id a = 1 \<and> (status a = Cancelled \<or> status a = Completed))
     (appointments history_db)" by code_simp
  have h2: "\<not> list_ex (\<lambda>a. appointment_time a = strftime_db (slot_datetime (2024, 5, 4) (10, 0)) \<and>
                master_id a = 1 \<and> status a = Active) (appointments history_db)" by code_simp
  have c: "fst (create_appointment (snd (clear_history history_db 501)) ''2024-05-10 09:00:00''
          502 ''Boris'' 1 1 (2024, 5, 4) (10, 0)) = Inr (AppointmentCreatedMsg 8)" by code_simp
  from terminal_row_blocks_rebooking [OF h1 h2, of "''2024-05-10 09:00:00''" 502 "''Boris''" 1]
  have "is_slot_available history_db (2024, 5, 4) (10, 0) 1"
    and "\<exists>db'. create_appointment history_db ''2024-05-10 09:00:00'' 502 ''Boris'' 1 1 (2024, 5, 4) (10, 0) =
           (Inl IntegrityError, [], db') \<and> appointments db' = appointments history_db"
    by blast+
  with h1 h2 c show ?thesis by auto
qed

section \<open>The schema constraints hold in every reachable database\<close>







lemma complete_loop_preserves:
  assumes step: "\<And>db i ts. Q db \<Longrightarrow> Q (update_status db i Completed ts)"
  shows "Q db \<Longrightarrow> complete_loop clock el ids db = (tr, el', db') \<Longrightarrow> Q db'"
proof (induction ids arbitrary: el db tr el' db')
  case Nil
  then show ?case by simp
next
  case (Cons p ids)
  obtain i tg where p: "p = (i, tg)" by (cases p)
  obtain tr2 el2 db2 where
    rec: "complete_loop clock (el + 600) ids (update_status db i Completed (clock el)) = (tr2, el2, db2)"
    by (metis prod_cases3)
  with Cons.prems p have "db' = db2" by (simp add: Let_def)
  moreover have "Q db2"
    using Cons.IH [OF step [OF Cons.prems(1)] rec] .
  ultimately show ?case by simp
qed

lemma remind_loop_preserves:
  assumes step: "\<And>db i. Q db \<Longrightarrow> Q (set_flag k db i)"
  shows "Q db \<Longrightarrow> remind_loop k el rows db = (tr, db') \<Longrightarrow> Q db'"
proof (induction rows arbitrary: db tr db')
  case Nil
  then show ?case by simp
next
  case (Cons r rows)
  obtain tr2 db2 where
    rec: "remind_loop k el rows (set_flag k db (app_id (fst r))) = (tr2, db2)"
    by (metis surj_pair)
  with Cons.prems have "db' = db2" by (simp add: Let_def)
  moreover have "Q db2"
    using Cons.IH [OF step [OF Cons.prems(1)] rec] .
  ultimately show ?case by simp
qed

lemma remind_phase_preserves:
  assumes step: "\<And>db i. Q db \<Longrightarrow> Q (set_flag k db i)"
    and "Q db" "remind_phase k now el db = (e, tr, db')"
  shows "Q db'"
proof (cases "window k now")
  case (Inl err)
  with assms(2,3) show ?thesis by (simp add: remind_phase_def)
next
  case (Inr w)
  obtain lo hi where w: "w = (lo, hi)" by (cases w)
  obtain tr2 db2 where rec: "remind_loop k el (due_rows k lo hi db) db = (tr2, db2)"
    by (metis surj_pair)
  with Inr w assms(3) have "db' = db2" by (simp add: remind_phase_def)
  with remind_loop_preserves [of Q k, OF step assms(2) rec] show ?thesis by simp
qed

lemma sweep_after_complete_loop:
  assumes flg: "\<And>k db i. Q db \<Longrightarrow> Q (set_flag k db i)"
    and sw: "sweep now clock db = (e, tr, db')"
    and p1: "complete_loop clock 0 (past_apps db (strftime_db now)) db = (tr1, el, db1)"
    and q1: "Q db1"
  shows "Q db'"
proof -
  obtain e2 tr2 db2 where p2: "remind_phase DayKind now el db1 = (e2, tr2, db2)"
    by (metis prod_cases3)
  obtain e3 tr3 db3 where p3: "remind_phase HourKind now el db2 = (e3, tr3, db3)"
    by (metis prod_cases3)
  obtain e4 tr4 db4 where p4: "remind_phase AdminKind now el db3 = (e4, tr4, db4)"
    by (metis prod_cases3)
  have q2: "Q db2" using remind_phase_preserves [of Q, OF flg q1 p2] .
  have q3: "Q db3" using remind_phase_preserves [of Q, OF flg q2 p3] .
  have q4: "Q db4" using remind_phase_preserves [of Q, OF flg q3 p4] .
  from sw p1 p2 p3 p4 have "db' = db2 \<or> db' = db3 \<or> db' = db4"
    by (auto simp: sweep_def split: option.splits)
  with q2 q3 q4 show ?thesis by blast
qed











section \<open>Concurrent bookings of one slot\<close>













text \<open>
  Claim C2. Two calls for the same free slot that both pass \<open>is_slot_available\<close> before
  either inserts: the first books, the second ends in \<open>IntegrityError\<close>, raised by the
  \<open>INSERT\<close> and caught nowhere in \<open>create_appointment\<close>; it does not end with the
  slot-taken reply. Run one after the other, the first call books and the second gets the
  slot-taken reply.
\<close>

theorem race_raises_integrity_error:
  "map b_state (fst (run_schedule 1 (2024, 6, 10) (14, 30) [0, 1, 0, 1] two_bookings init_db)) =
     [Finished (Inr (AppointmentCreatedMsg 1)), Finished (Inl IntegrityError)] \<and>
   fst (create_appointment init_db ''2024-06-01 12:00:00'' 501 ''Anna'' 1 1 (2024, 6, 10) (14, 0)) =
     Inr (AppointmentCreatedMsg 1) \<and>
   fst (create_appointment
          (snd (snd (create_appointment init_db ''2024-06-01 12:00:00'' 501 ''Anna'' 1 1
                       (2024, 6, 10) (14, 0))))
          ''2024-06-01 12:00:01'' 502 ''Boris'' 2 1 (2024, 6, 10) (14, 0)) = Inr SlotTakenMsg"
  by code_simp

section \<open>Status transitions\<close>

text \<open>
  Claim C3. \<open>admin_complete_appointment\<close> and \<open>admin_cancel_appointment\<close> update the row
  whatever its status: a cancelled appointment (number 4) becomes completed, a completed
  one (number 1) becomes cancelled.
\<close>

theorem admin_actions_leave_terminal_states:
  "map status (appointments history_db) =
     [Completed, Completed, Completed, Cancelled, Completed, Cancelled, Active] \<and>
   map status (appointments (snd (snd (admin_complete_appointment history_db ''2024-06-11 09:00:00'' 4)))) =
     [Completed, Completed, Completed, Completed, Completed, Cancelled, Active] \<and>
   map status (appointments (snd (snd (admin_cancel_appointment history_db ''2024-06-11 09:00:00'' 1)))) =
     [Cancelled, Completed, Completed, Cancelled, Completed, Cancelled, Active]"
  by code_simp

text \<open>
  Claim C4. Completing the active appointment number 7 twice: both calls show the same
  success reply, and the second call stamps \<open>updated_at\<close> again.
\<close>

theorem second_completion_reports_success:
  "fst (admin_complete_appointment history_db ''2024-06-11 09:00:00'' 7) = CompletedMsg 7 \<and>
   fst (admin_complete_appointment
          (snd (snd (admin_complete_appointment history_db ''2024-06-11 09:00:00'' 7)))
          ''2024-06-11 09:30:00'' 7) = CompletedMsg 7 \<and>
   map updated_at (filter (\<lambda>a. app_id a = 7)
     (appointments (snd (snd (admin_complete_appointment history_db ''2024-06-11 09:00:00'' 7))))) =
     [''2024-06-11 09:00:00''] \<and>
   map updated_at (filter (\<lambda>a. app_id a = 7)
     (appointments (snd (snd (admin_complete_appointment
          (snd (snd (admin_complete_appointment history_db ''2024-06-11 09:00:00'' 7)))
          ''2024-06-11 09:30:00'' 7))))) = [''2024-06-11 09:30:00'']"
  by code_simp

section \<open>The sweep\<close>

lemma stamp_of_absent: "i \<notin> fst ` set ids \<Longrightarrow> stamp_of clock el ids i = None"
  by (induction ids arbitrary: el) auto

lemma complete_loop_appointments:
  "distinct (map fst ids) \<Longrightarrow> complete_loop clock el ids db = (tr, el', db') \<Longrightarrow>
   appointments db' =
     map (\<lambda>a. case stamp_of clock el ids (app_id a) of
                None \<Rightarrow> a
              | Some ts \<Rightarrow> a\<lparr>status := Completed, updated_at := ts\<rparr>) (appointments db)"
proof (induction ids arbitrary: el db tr el' db')
  case Nil
  then show ?case by simp
next
  case (Cons p ids)
  obtain i tg where p: "p = (i, tg)" by (cases p)
  let ?db1 = "update_status db i Completed (clock el)"
  obtain tr2 el2 db2 where
    rec: "complete_loop clock (el + 600) ids ?db1 = (tr2, el2, db2)"
    by (metis prod_cases3)
  with Cons.prems p have e: "db' = db2" by (simp add: Let_def)
  from Cons.prems(1) p have d: "distinct (map fst ids)" and fresh: "i \<notin> fst ` set ids" by auto
  have "appointments db2 =
     map (\<lambda>a. case stamp_of clock (el + 600) ids (app_id a) of
                None \<Rightarrow> a
              | Some ts \<Rightarrow> a\<lparr>status := Completed, updated_at := ts\<rparr>) (appointments ?db1)"
    by (rule Cons.IH [OF d rec])
  also have "\<dots> = map (\<lambda>a. case stamp_of clock el (p # ids) (app_id a) of
                None \<Rightarrow> a
              | Some ts \<Rightarrow> a\<lparr>status := Completed, updated_at := ts\<rparr>) (appointments db)"
    using stamp_of_absent [OF fresh] by (simp add: update_status_def p)
  finally show ?case using e by simp
qed

lemma stamp_of_position:
  "distinct (map app_id xs) \<Longrightarrow> k < length xs \<Longrightarrow>
   stamp_of clock el (map (\<lambda>a. (app_id a, g a)) (filter P xs)) (app_id (xs ! k)) =
     (if P (xs ! k) then Some (clock (el + 600 * length (filter P (take k xs)))) else None)"
proof (induction xs arbitrary: k el)
  case Nil
  then show ?case by simp
next
  case (Cons x xs)
  show ?case
  proof (cases k)
    case 0
    have "app_id x \<notin> fst ` set (map (\<lambda>a. (app_id a, g a)) (filter P xs))"
      using Cons.prems(1) by force
    from stamp_of_absent [OF this] 0 show ?thesis by simp
  next
    case (Suc k')
    with Cons.prems have k': "k' < length xs" and d: "distinct (map app_id xs)"
      and nx: "app_id x \<notin> app_id ` set xs" by auto
    from k' have "xs ! k' \<in> set xs" by simp
    with nx have ne: "app_id (xs ! k') \<noteq> app_id x" by (metis image_eqI)
    from Cons.IH [OF d k'] Suc ne show ?thesis by (simp add: add.assoc)
  qed
qed

lemma past_apps_eq:
  assumes "list_all (\<lambda>a. list_ex (\<lambda>c. c_id c = client_id a) (clients db)) (appointments db)"
  shows "past_apps db now_s =
     map (\<lambda>a. (app_id a, c_telegram_id (the (join_client db a))))
       (filter (\<lambda>a. status a = Active \<and> appointment_time a < now_s) (appointments db))"
proof -
  have j: "\<forall>a\<in>set (appointments db). join_client db a \<noteq> None"
    using assms by (auto simp: list_all_iff list_ex_iff join_client_def find_None_iff)
  have "filter (\<lambda>a. (if appointment_time a < now_s \<and> status a = Active
            then map_option (\<lambda>c. (app_id a, c_telegram_id c)) (join_client db a)
            else None) \<noteq> None) (appointments db) =
        filter (\<lambda>a. status a = Active \<and> appointment_time a < now_s) (appointments db)"
    using j by (auto intro: filter_cong)
  then show ?thesis
    using j by (auto simp: past_apps_def map_filter_def)
qed

lemma erase_flags_set_flag:
  "map erase_flags (appointments (set_flag k db i)) = map erase_flags (appointments db)"
  by (cases k) (simp_all add: set_flag_def erase_flags_def)

text \<open>
  Claim C6 as it is worded fails for an appointment in the very second of the sweep: the
  query compares \<open>appointment_time\<close> with \<open>now\<close> rendered to the second, so at
  10:00:00.000001 the active appointment of 10:00:00, strictly earlier than \<open>now\<close>, stays
  active in that cycle.
\<close>

theorem sweep_skips_same_second_counterexample:
  "wf_db sweep_db \<and>
   appointment_time (appointments sweep_db ! 4) = strftime_db (slot_datetime (2024, 6, 2) (10, 0)) \<and>
   status (appointments sweep_db ! 4) = Active \<and>
   dt_less (slot_datetime (2024, 6, 2) (10, 0)) now1_late \<and>
   status (appointments (snd (snd (sweep now1_late clock1 sweep_db))) ! 4) = Active"
  by code_simp

text \<open>
  Claim C6, amended. One cycle of the sweep, run without another writer in between on a
  database that satisfies the schema constraints (every reachable one does,
  \<open>reachable_wf_db\<close>), keeps the rows in place, sets to completed every row that is active
  and whose \<open>appointment_time\<close> is strictly below \<open>now\<close> cut to whole seconds (the text the
  query is given), stamps its \<open>updated_at\<close> with the \<open>CURRENT_TIMESTAMP\<close> of its turn, and
  leaves the status and \<open>updated_at\<close> of every other row as they were. Only reminder flags
  may differ otherwise.
\<close>

theorem sweep_completes_past_appointments:
  assumes "wf_db db" and "sweep now clock db = (e, tr, db')"
  shows "length (appointments db') = length (appointments db) \<and>
    (\<forall>k<length (appointments db).
       erase_flags (appointments db' ! k) =
         (if status (appointments db ! k) = Active \<and>
             appointment_time (appointments db ! k) < strftime_db now
          then erase_flags ((appointments db ! k)
                 \<lparr>status := Completed,
                  updated_at := clock (600 * length (filter
                     (\<lambda>b. status b = Active \<and> appointment_time b < strftime_db now)
                     (take k (appointments db))))\<rparr>)
          else erase_flags (appointments db ! k)))"
proof -
  let ?due = "\<lambda>a. status a = Active \<and> appointment_time a < strftime_db now"
  let ?ids = "past_apps db (strftime_db now)"
  obtain tr1 el db1 where p1: "complete_loop clock 0 ?ids db = (tr1, el, db1)"
    by (metis prod_cases3)
  have ids: "?ids = map (\<lambda>a. (app_id a, c_telegram_id (the (join_client db a))))
                      (filter ?due (appointments db))"
    using assms(1) by (simp add: past_apps_eq wf_db_def)
  have pk: "distinct (map app_id (appointments db))"
    using assms(1) by (simp add: wf_db_def)
  have "map fst ?ids = map app_id (filter ?due (appointments db))"
    by (simp add: ids comp_def)
  with pk have d: "distinct (map fst ?ids)" by (simp add: distinct_map_filter)
  have a1: "appointments db1 =
     map (\<lambda>a. case stamp_of clock 0 ?ids (app_id a) of
                None \<Rightarrow> a
              | Some ts \<Rightarrow> a\<lparr>status := Completed, updated_at := ts\<rparr>) (appointments db)"
    by (rule complete_loop_appointments [OF d p1])
  have "map erase_flags (appointments db') = map erase_flags (appointments db1)"
    by (rule sweep_after_complete_loop
          [of "\<lambda>x. map erase_flags (appointments x) = map erase_flags (appointments db1)",
           OF _ assms(2) p1]) (simp_all add: erase_flags_set_flag)
  then have a2: "map erase_flags (appointments db') =
     map (\<lambda>a. erase_flags (case stamp_of clock 0 ?ids (app_id a) of
                None \<Rightarrow> a
              | Some ts \<Rightarrow> a\<lparr>status := Completed, updated_at := ts\<rparr>)) (appointments db)"
    by (simp add: a1 comp_def)
  have len: "length (appointments db') = length (appointments db)"
    using arg_cong [OF a2, of length] by simp
  have "\<forall>k<length (appointments db).
       erase_flags (appointments db' ! k) =
         (if ?due (appointments db ! k)
          then erase_flags ((appointments db ! k)
                 \<lparr>status := Completed,
                  updated_at := clock (600 * length (filter ?due (take k (appointments db))))\<rparr>)
          else erase_flags (appointments db ! k))"
  proof (intro allI impI)
    fix k assume k: "k < length (appointments db)"
    have "erase_flags (appointments db' ! k) = map erase_flags (appointments db') ! k"
      using k len by simp
    also have "\<dots> = erase_flags (case stamp_of clock 0 ?ids (app_id (appointments db ! k)) of
                None \<Rightarrow> appointments db ! k
              | Some ts \<Rightarrow> (appointments db ! k)\<lparr>status := Completed, updated_at := ts\<rparr>)"
      using k by (simp only: a2 nth_map)
    also have "\<dots> = (if ?due (appointments db ! k)
          then erase_flags ((appointments db ! k)
                 \<lparr>status := Completed,
                  updated_at := clock (600 * length (filter ?due (take k (appointments db))))\<rparr>)
          else erase_flags (appointments db ! k))"
      by (simp only: ids stamp_of_position [OF pk k] add_0)
         (simp split: if_splits)
    finally show "erase_flags (appointments db' ! k) =
         (if ?due (appointments db ! k)
          then erase_flags ((appointments db ! k)
                 \<lparr>status := Completed,
                  updated_at := clock (600 * length (filter ?due (take k (appointments db))))\<rparr>)
          else erase_flags (appointments db ! k))" .
  qed
  with len show ?thesis by simp
qed

theorem sweep_completes_past_appointments_witness:
  "wf_db sweep_db \<and>
   map status (appointments (snd (snd (sweep now1 clock1 sweep_db)))) =
     [Completed, Completed, Active, Cancelled, Active] \<and>
   map updated_at (appointments (snd (snd (sweep now1 clock1 sweep_db)))) =
     [''2024-06-02 07:00:00'', ''2024-06-02 07:10:00'', ''2024-05-01 08:00:00'',
      ''2024-05-01 08:00:00'', ''2024-05-01 08:00:00'']"
proof -
  let ?r = "sweep now1 clock1 sweep_db"
  have w: "wf_db sweep_db" by code_simp
  have r: "?r = (fst ?r, fst (snd ?r), snd (snd ?r))" by simp
  have len: "length (appointments sweep_db) = 5" by (simp add: sweep_db_def)
  note t = sweep_completes_past_appointments [OF w r]
  have "map status (appointments (snd (snd ?r))) = [Completed, Completed, Active, Cancelled, Active]"
    by code_simp
  moreover have "map updated_at (appointments (snd (snd ?r))) =
     [''2024-06-02 07:00:00'', ''2024-06-02 07:10:00'', ''2024-05-01 08:00:00'',
      ''2024-05-01 08:00:00'', ''2024-05-01 08:00:00'']"
    by code_simp
  ultimately show ?thesis using w t by simp
qed

text \<open>
  Claim C7. With two appointments past due, the cycle completes the first at second 0,
  waits, completes the second at second 600 and sends the day reminder of a third
  appointment at second 1200: the wait for the review request is inside the loop.
\<close>

theorem sweep_waits_inside_completion_loop:
  "fst (snd (sweep now1 clock1 sweep_db)) =
     [(0, CompleteAppointment 1), (600, SendMessage 501 (ReviewRequest 1)),
      (600, CompleteAppointment 2), (1200, SendMessage 502 (ReviewRequest 2)),
      (1200, SendMessage 501 (Reminder DayKind 3))]"
  by code_simp

lemma set_map_filter: "set (List.map_filter f xs) = {y. \<exists>x\<in>set xs. f x = Some y}"
  by (force simp: map_filter_def image_iff)

lemma due_rows_empty_iff:
  "due_rows k lo hi db = [] \<longleftrightarrow> (\<forall>a\<in>set (appointments db). \<not> is_due k lo hi db a)"
  by (auto simp: due_rows_def map_filter_def filter_empty_conv is_due_def)

lemma join_row_fst: "join_row db a = Some r \<Longrightarrow> fst r = a"
  by (auto simp: join_row_def split: option.splits)

lemma join_row_None_iff:
  "join_row db a = None \<longleftrightarrow>
     (find (\<lambda>c. c_id c = client_id a) (clients db) = None \<or>
      find (\<lambda>s. s_id s = service_id a) (services db) = None \<or>
      find (\<lambda>m. m_id m = master_id a) (masters db) = None)"
  by (auto simp: join_row_def join_client_def split: option.splits)

lemma due_rows_set:
  "set (due_rows k lo hi db) =
     {r. \<exists>a\<in>set (appointments db). is_due k lo hi db a \<and> join_row db a = Some r}"
  by (auto simp: due_rows_def set_map_filter is_due_def split: if_splits)

lemma due_rows_ids:
  "a \<in> set (appointments db) \<Longrightarrow> is_due k lo hi db a \<Longrightarrow>
   app_id a \<in> (\<lambda>r. app_id (fst r)) ` set (due_rows k lo hi db)"
proof -
  assume a: "a \<in> set (appointments db)" and d: "is_due k lo hi db a"
  then obtain r where r: "join_row db a = Some r" by (auto simp: is_due_def)
  with a d have "r \<in> set (due_rows k lo hi db)"
    unfolding due_rows_set by blast
  moreover have "fst r = a" using r by (rule join_row_fst)
  ultimately show ?thesis by force
qed

lemma raise_flag_keeps:
  "app_id (raise_flag k a) = app_id a" "client_id (raise_flag k a) = client_id a"
  "service_id (raise_flag k a) = service_id a" "master_id (raise_flag k a) = master_id a"
  "appointment_time (raise_flag k a) = appointment_time a" "status (raise_flag k a) = status a"
  "flag_of k (raise_flag k a)" "raise_flag k (raise_flag k a) = raise_flag k a"
  by (cases k; simp)+

lemma flag_of_raise_flag: "flag_of k a \<Longrightarrow> flag_of k (raise_flag k' a)"
  by (cases k; cases k'; simp)

lemma remind_loop_appointments:
  "remind_loop k el rows db = (tr, db') \<Longrightarrow>
   appointments db' =
     map (\<lambda>a. if app_id a \<in> (\<lambda>r. app_id (fst r)) ` set rows then raise_flag k a else a)
       (appointments db) \<and>
   clients db' = clients db \<and> services db' = services db \<and> masters db' = masters db \<and>
   admins db' = admins db"
proof (induction rows arbitrary: db tr db')
  case Nil
  then show ?case by simp
next
  case (Cons r rows)
  let ?db1 = "set_flag k db (app_id (fst r))"
  obtain tr2 db2 where rec: "remind_loop k el rows ?db1 = (tr2, db2)" by (metis surj_pair)
  with Cons.prems have e: "db' = db2" by (simp add: Let_def)
  have "(\<lambda>a. if app_id a \<in> (\<lambda>r. app_id (fst r)) ` set rows then raise_flag k a else a) \<circ>
        (\<lambda>a. if app_id a = app_id (fst r) then raise_flag k a else a) =
        (\<lambda>a. if app_id a \<in> (\<lambda>r. app_id (fst r)) ` set (r # rows) then raise_flag k a else a)"
    by (rule ext) (simp add: raise_flag_keeps)
  with Cons.IH [OF rec] e show ?case
    by (simp add: set_flag_def)
qed

lemma same_tables_is_due:
  assumes "clients db' = clients db" "services db' = services db" "masters db' = masters db"
  shows "is_due k lo hi db' a = is_due k lo hi db a"
  using assms by (simp add: is_due_def join_row_None_iff)

lemma remind_loop_clears_due:
  assumes "remind_loop k el (due_rows k lo hi db) db = (tr, db')"
  shows "due_rows k lo hi db' = []"
proof -
  let ?S = "(\<lambda>r. app_id (fst r)) ` set (due_rows k lo hi db)"
  from remind_loop_appointments [OF assms]
  have apps: "appointments db' = map (\<lambda>a. if app_id a \<in> ?S then raise_flag k a else a) (appointments db)"
    and t: "clients db' = clients db" "services db' = services db" "masters db' = masters db"
    by simp_all
  have "\<forall>b\<in>set (appointments db'). \<not> is_due k lo hi db' b"
  proof
    fix b assume "b \<in> set (appointments db')"
    then have "b \<in> (\<lambda>a. if app_id a \<in> ?S then raise_flag k a else a) ` set (appointments db)"
      by (simp add: apps)
    then obtain a where a: "a \<in> set (appointments db)"
      and b: "b = (if app_id a \<in> ?S then raise_flag k a else a)"
      by blast
    show "\<not> is_due k lo hi db' b"
    proof (cases "app_id a \<in> ?S")
      case True
      with b show ?thesis by (simp add: is_due_def raise_flag_keeps)
    next
      case False
      with due_rows_ids [OF a] have "\<not> is_due k lo hi db a" by blast
      with False b show ?thesis by (simp add: same_tables_is_due [OF t])
    qed
  qed
  then show ?thesis by (simp add: due_rows_empty_iff)
qed

lemma no_due_set_flag:
  assumes "due_rows k lo hi db = []"
  shows "due_rows k lo hi (set_flag k' db i) = []"
proof -
  have t: "is_due k lo hi (set_flag k' db i) = is_due k lo hi db"
    by (rule ext) (simp add: is_due_def join_row_None_iff set_flag_def)
  have "is_due k lo hi db (raise_flag k' a) \<Longrightarrow> is_due k lo hi db a" for a
    using flag_of_raise_flag [of k a k']
    by (auto simp: is_due_def join_row_None_iff raise_flag_keeps)
  with assms show ?thesis
    unfolding due_rows_empty_iff t by (auto simp: set_flag_def)
qed

lemma no_due_update_status:
  assumes "due_rows k lo hi db = []"
  shows "due_rows k lo hi (update_status db i Completed ts) = []"
proof -
  have t: "is_due k lo hi (update_status db i Completed ts) = is_due k lo hi db"
    by (rule ext) (simp add: is_due_def join_row_None_iff update_status_def)
  from assms show ?thesis
    unfolding due_rows_empty_iff t by (auto simp: update_status_def is_due_def)
qed

lemma reminder_of_Some_iff:
  "reminder_of k x = Some p \<longleftrightarrow> (\<exists>el. x = (el, SendMessage (fst p) (Reminder k (snd p))))"
proof (cases x)
  case (Pair el act)
  show ?thesis
  proof (cases act)
    case (CompleteAppointment i)
    with Pair show ?thesis by simp
  next
    case (SendMessage chat n)
    with Pair show ?thesis by (cases n; cases p) auto
  qed
qed

lemma in_reminders_sent:
  "p \<in> set (reminders_sent k tr) \<longleftrightarrow>
     (\<exists>el. (el, SendMessage (fst p) (Reminder k (snd p))) \<in> set tr)"
  by (auto simp: reminders_sent_def set_map_filter reminder_of_Some_iff)

lemma reminders_sent_append:
  "reminders_sent k (tr1 @ tr2) = reminders_sent k tr1 @ reminders_sent k tr2"
  by (simp add: reminders_sent_def map_filter_def)

lemma reminders_sent_empty_iff:
  "reminders_sent k tr = [] \<longleftrightarrow> (\<forall>p. p \<notin> set (reminders_sent k tr))"
  by (cases "reminders_sent k tr") auto

lemma complete_loop_no_reminders:
  "complete_loop clock el ids db = (tr, el', db') \<Longrightarrow> reminders_sent k tr = []"
proof (induction ids arbitrary: el db tr el' db')
  case Nil
  then show ?case by (simp add: reminders_sent_def map_filter_simps)
next
  case (Cons p ids)
  obtain i tg where p: "p = (i, tg)" by (cases p)
  let ?db1 = "update_status db i Completed (clock el)"
  obtain tr2 el2 db2 where
    rec: "complete_loop clock (el + 600) ids ?db1 = (tr2, el2, db2)"
    by (metis prod_cases3)
  with Cons.prems p have tr: "tr = (el, CompleteAppointment i) #
      map (\<lambda>(chat, n). (el + 600, SendMessage chat n)) (ask_for_review ?db1 i) @ tr2"
    by (simp add: Let_def)
  have a: "reminders_sent k (map (\<lambda>(chat, n). (el + 600, SendMessage chat n))
             (ask_for_review ?db1 i)) = []"
    unfolding reminders_sent_empty_iff in_reminders_sent
    by (auto simp: ask_for_review_def split: option.splits)
  have "reminders_sent k [(el, CompleteAppointment i)] = []"
    by (simp add: reminders_sent_def map_filter_simps)
  with a Cons.IH [OF rec] show ?case
    using reminders_sent_append [of k "[(el, CompleteAppointment i)]"]
    by (simp add: tr reminders_sent_append)
qed

lemma reminder_messages_kind:
  "(chat, n) \<in> set (reminder_messages k db r) \<Longrightarrow> n = Reminder k (app_id (fst r))"
  by (cases k; cases r) (auto simp: send_admin_notification_def)

lemma remind_loop_trace:
  "remind_loop k el rows db = (tr, db') \<Longrightarrow> p \<in> set (reminders_sent k' tr) \<Longrightarrow>
   k' = k \<and> snd p \<in> (\<lambda>r. app_id (fst r)) ` set rows"
proof (induction rows arbitrary: db tr db')
  case Nil
  then show ?case by (simp add: reminders_sent_def map_filter_simps)
next
  case (Cons r rows)
  let ?db1 = "set_flag k db (app_id (fst r))"
  let ?sent = "map (\<lambda>(chat, n). (el, SendMessage chat n)) (reminder_messages k db r)"
  obtain tr2 db2 where rec: "remind_loop k el rows ?db1 = (tr2, db2)" by (metis surj_pair)
  with Cons.prems(1) have tr: "tr = ?sent @ tr2" by (simp add: Let_def)
  from Cons.prems(2) have "p \<in> set (reminders_sent k' ?sent) \<or> p \<in> set (reminders_sent k' tr2)"
    by (simp add: tr reminders_sent_append)
  then show ?case
  proof
    assume "p \<in> set (reminders_sent k' ?sent)"
    then obtain el' where "(el', SendMessage (fst p) (Reminder k' (snd p))) \<in> set ?sent"
      unfolding in_reminders_sent by blast
    then have "(fst p, Reminder k' (snd p)) \<in> set (reminder_messages k db r)" by auto
    from reminder_messages_kind [OF this] show ?thesis by simp
  next
    assume "p \<in> set (reminders_sent k' tr2)"
    from Cons.IH [OF rec this] show ?thesis by auto
  qed
qed

lemma remind_phase_other_kind:
  assumes "remind_phase k now el db = (e, tr, db')" "k' \<noteq> k"
  shows "reminders_sent k' tr = []"
proof (cases "window k now")
  case (Inl err)
  with assms show ?thesis by (simp add: remind_phase_def reminders_sent_def map_filter_simps)
next
  case (Inr w)
  obtain lo hi where w: "w = (lo, hi)" by (cases w)
  obtain tr2 db2 where rec: "remind_loop k el (due_rows k lo hi db) db = (tr2, db2)"
    by (metis surj_pair)
  with Inr w assms(1) have "tr = tr2" by (simp add: remind_phase_def)
  with remind_loop_trace [OF rec] assms(2) show ?thesis
    unfolding reminders_sent_empty_iff by blast
qed

lemma sweep_decompose:
  assumes "sweep now clock db = (e, tr, db')"
  shows "\<exists>tr1 el dba ea tr2 dbb tr3.
           complete_loop clock 0 (past_apps db (strftime_db now)) db = (tr1, el, dba) \<and>
           remind_phase DayKind now el dba = (ea, tr2, dbb) \<and>
           tr = tr1 @ tr2 @ tr3 \<and> reminders_sent DayKind tr3 = [] \<and>
           (\<forall>Q. (\<forall>k d i. Q d \<longrightarrow> Q (set_flag k d i)) \<longrightarrow> Q dbb \<longrightarrow> Q db')"
proof -
  obtain tr1 el dba where
    p1: "complete_loop clock 0 (past_apps db (strftime_db now)) db = (tr1, el, dba)"
    by (metis prod_cases3)
  obtain ea tr2 dbb where p2: "remind_phase DayKind now el dba = (ea, tr2, dbb)"
    by (metis prod_cases3)
  obtain e3 tr3 db3 where p3: "remind_phase HourKind now el dbb = (e3, tr3, db3)"
    by (metis prod_cases3)
  obtain e4 tr4 db4 where p4: "remind_phase AdminKind now el db3 = (e4, tr4, db4)"
    by (metis prod_cases3)
  have n3: "reminders_sent DayKind tr3 = []"
    by (rule remind_phase_other_kind [OF p3]) simp
  have n4: "reminders_sent DayKind tr4 = []"
    by (rule remind_phase_other_kind [OF p4]) simp
  have n0: "reminders_sent DayKind [] = []"
    by (simp add: reminders_sent_def map_filter_simps)
  have q3: "Q dbb \<Longrightarrow> Q db3" if "\<And>k d i. Q d \<Longrightarrow> Q (set_flag k d i)" for Q
    using remind_phase_preserves [of Q HourKind dbb now el e3 tr3 db3] that p3 by blast
  have q4: "Q dbb \<Longrightarrow> Q db4" if "\<And>k d i. Q d \<Longrightarrow> Q (set_flag k d i)" for Q
    using remind_phase_preserves [of Q AdminKind db3 now el e4 tr4 db4] that p4 q3 [of Q] by blast
  from assms p1 p2 p3 p4 consider
      (day) "tr = tr1 @ tr2 @ []" "db' = dbb"
    | (hour) "tr = tr1 @ tr2 @ tr3" "db' = db3"
    | (admin) "tr = tr1 @ tr2 @ (tr3 @ tr4)" "db' = db4"
    by (auto simp: sweep_def split: option.splits)
  then show ?thesis
  proof cases
    case day
    with p1 p2 n0 show ?thesis by blast
  next
    case hour
    have "\<forall>Q. (\<forall>k d i. Q d \<longrightarrow> Q (set_flag k d i)) \<longrightarrow> Q dbb \<longrightarrow> Q db3"
      using q3 by blast
    with p1 p2 n3 hour show ?thesis by blast
  next
    case admin
    have "\<forall>Q. (\<forall>k d i. Q d \<longrightarrow> Q (set_flag k d i)) \<longrightarrow> Q dbb \<longrightarrow> Q db4"
      using q4 by blast
    moreover have "reminders_sent DayKind (tr3 @ tr4) = []"
      by (simp add: reminders_sent_append n3 n4)
    ultimately show ?thesis using p1 p2 admin by blast
  qed
qed

lemma day_flag_set_flag:
  assumes "\<forall>a\<in>set (appointments db). app_id a = j \<longrightarrow> reminder_sent_day a"
  shows "\<forall>a\<in>set (appointments (set_flag k db i)). app_id a = j \<longrightarrow> reminder_sent_day a"
proof -
  have "reminder_sent_day a \<Longrightarrow> reminder_sent_day (raise_flag k a)" for a
    by (cases k) simp_all
  with assms show ?thesis
    by (auto simp: set_flag_def raise_flag_keeps)
qed

lemma remind_phase_day_empty:
  assumes "remind_phase DayKind now el db = (e, tr, db')"
    and "\<And>lo hi. window DayKind now = Inr (lo, hi) \<Longrightarrow> due_rows DayKind lo hi db = []"
  shows "tr = []"
proof (cases "window DayKind now")
  case (Inl err)
  with assms(1) show ?thesis by (simp add: remind_phase_def)
next
  case (Inr w)
  obtain lo hi where w: "w = (lo, hi)" by (cases w)
  with Inr assms(2) have "due_rows DayKind lo hi db = []" by simp
  with Inr w assms(1) show ?thesis by (simp add: remind_phase_def)
qed

lemma day_reminder_core:
  assumes s1: "sweep now clock db = (e1, tr1, db1)"
    and w: "window DayKind now2 = window DayKind now"
    and s2: "sweep now2 clock2 db1 = (e2, tr2, db2)"
  shows "reminders_sent DayKind tr2 = [] \<and>
         reminders_sent DayKind (tr1 @ tr2) = reminders_sent DayKind tr1 \<and>
         (\<forall>p\<in>set (reminders_sent DayKind tr1). \<forall>a\<in>set (appointments db1).
             app_id a = snd p \<longrightarrow> reminder_sent_day a)"
proof -
  from sweep_decompose [OF s1] obtain t1 el dba ea t2 dbb t3 where
    p1: "complete_loop clock 0 (past_apps db (strftime_db now)) db = (t1, el, dba)"
    and p2: "remind_phase DayKind now el dba = (ea, t2, dbb)"
    and tr1: "tr1 = t1 @ t2 @ t3" and n3: "reminders_sent DayKind t3 = []"
    and pres0: "\<forall>Q. (\<forall>k d i. Q d \<longrightarrow> Q (set_flag k d i)) \<longrightarrow> Q dbb \<longrightarrow> Q db1"
    by (elim exE conjE) (rule that)
  have pres: "Q db1" if "\<And>k d i. Q d \<Longrightarrow> Q (set_flag k d i)" "Q dbb" for Q
    using pres0 [rule_format, of Q] that by simp
  from sweep_decompose [OF s2] obtain u1 el' dba' ea' u2 dbb' u3 where
    q1: "complete_loop clock2 0 (past_apps db1 (strftime_db now2)) db1 = (u1, el', dba')"
    and q2: "remind_phase DayKind now2 el' dba' = (ea', u2, dbb')"
    and tr2: "tr2 = u1 @ u2 @ u3" and m3: "reminders_sent DayKind u3 = []"
    by (elim exE conjE) (rule that)
  have r1: "reminders_sent DayKind tr1 = reminders_sent DayKind t2"
    by (simp add: tr1 reminders_sent_append n3 complete_loop_no_reminders [OF p1])
  have r2: "reminders_sent DayKind tr2 = reminders_sent DayKind u2"
    by (simp add: tr2 reminders_sent_append m3 complete_loop_no_reminders [OF q1])
  have cleared: "due_rows DayKind lo hi dba' = []" if win: "window DayKind now = Inr (lo, hi)" for lo hi
  proof -
    obtain t2' dbb2 where l: "remind_loop DayKind el (due_rows DayKind lo hi dba) dba = (t2', dbb2)"
      by (metis surj_pair)
    with p2 win have "dbb = dbb2" by (simp add: remind_phase_def)
    with remind_loop_clears_due [OF l] have "due_rows DayKind lo hi dbb = []" by simp
    then have "due_rows DayKind lo hi db1 = []"
      by (rule pres [of "\<lambda>d. due_rows DayKind lo hi d = []", rotated]) (rule no_due_set_flag)
    then show ?thesis
      by (rule complete_loop_preserves [of "\<lambda>d. due_rows DayKind lo hi d = []", OF _ _ q1, rotated])
         (rule no_due_update_status)
  qed
  have "u2 = []"
  proof (rule remind_phase_day_empty [OF q2])
    fix lo hi assume "window DayKind now2 = Inr (lo, hi)"
    with w have "window DayKind now = Inr (lo, hi)" by (simp only:)
    then show "due_rows DayKind lo hi dba' = []" by (rule cleared)
  qed
  then have "reminders_sent DayKind u2 = []"
    by (simp add: reminders_sent_def map_filter_simps)
  then have c1: "reminders_sent DayKind tr2 = []"
    by (simp only: r2)
  then have c2: "reminders_sent DayKind (tr1 @ tr2) = reminders_sent DayKind tr1"
    by (simp add: reminders_sent_append)
  have c3: "\<forall>p\<in>set (reminders_sent DayKind tr1). \<forall>a\<in>set (appointments db1).
             app_id a = snd p \<longrightarrow> reminder_sent_day a"
  proof
    fix p assume "p \<in> set (reminders_sent DayKind tr1)"
    then have p: "p \<in> set (reminders_sent DayKind t2)" by (simp add: r1)
    show "\<forall>a\<in>set (appointments db1). app_id a = snd p \<longrightarrow> reminder_sent_day a"
    proof (cases "window DayKind now")
      case (Inl err)
      with p2 have "t2 = []" by (simp add: remind_phase_def)
      with p show ?thesis by (simp add: reminders_sent_def map_filter_simps)
    next
      case (Inr wd)
      obtain lo hi where wd: "wd = (lo, hi)" by (cases wd)
      obtain t2' dbb2 where l: "remind_loop DayKind el (due_rows DayKind lo hi dba) dba = (t2', dbb2)"
        by (metis surj_pair)
      with p2 Inr wd have e: "t2 = t2'" "dbb = dbb2" by (simp_all add: remind_phase_def)
      from remind_loop_trace [OF l] p e
      have i: "snd p \<in> (\<lambda>r. app_id (fst r)) ` set (due_rows DayKind lo hi dba)" by blast
      let ?S = "(\<lambda>r. app_id (fst r)) ` set (due_rows DayKind lo hi dba)"
      from remind_loop_appointments [OF l] e
      have apps: "appointments dbb =
         map (\<lambda>a. if app_id a \<in> ?S then raise_flag DayKind a else a) (appointments dba)" by simp
      have "\<forall>b\<in>set (appointments dbb). app_id b = snd p \<longrightarrow> reminder_sent_day b"
      proof (intro ballI impI)
        fix b assume "b \<in> set (appointments dbb)" and bp: "app_id b = snd p"
        then have "b \<in> (\<lambda>a. if app_id a \<in> ?S then raise_flag DayKind a else a) ` set (appointments dba)"
          by (simp add: apps)
        then obtain a where b: "b = (if app_id a \<in> ?S then raise_flag DayKind a else a)"
          by blast
        then have "app_id b = app_id a" by (simp add: raise_flag_keeps)
        with bp i have "app_id a \<in> ?S" by simp
        with b show "reminder_sent_day b" by simp
      qed
      then show ?thesis
        by (rule pres [of "\<lambda>d. \<forall>a\<in>set (appointments d). app_id a = snd p \<longrightarrow> reminder_sent_day a", rotated])
           (rule day_flag_set_flag)
    qed
  qed
  from c1 c2 c3 show ?thesis by blast
qed

lemma remind_loop_day_trace:
  "remind_loop DayKind el rows db = (tr, db') \<Longrightarrow>
   reminders_sent DayKind tr = map (\<lambda>(a, c, s, m). (c_telegram_id c, app_id a)) rows"
proof (induction rows arbitrary: db tr db')
  case Nil
  then show ?case by (simp add: reminders_sent_def map_filter_simps)
next
  case (Cons r rows)
  obtain a c s m where r: "r = (a, c, s, m)" by (cases r)
  let ?db1 = "set_flag DayKind db (app_id (fst r))"
  obtain tr2 db2 where rec: "remind_loop DayKind el rows ?db1 = (tr2, db2)" by (metis surj_pair)
  with Cons.prems r have tr: "tr = (el, SendMessage (c_telegram_id c) (Reminder DayKind (app_id a))) # tr2"
    by (simp add: Let_def)
  from Cons.IH [OF rec] show ?case
    by (simp add: tr r reminders_sent_def map_filter_simps)
qed

text \<open>
  Claim C8. A sweep sends one day reminder for each row its day query returns, and every
  appointment it reminds has its day flag set afterwards. A second sweep right after it, at
  a time with the same day window, sends no day reminder at all, so both sweeps together
  send the day reminders of the first.
\<close>

theorem day_reminder_sent_once:
  assumes s1: "sweep now clock db = (e1, tr1, db1)"
    and w: "window DayKind now2 = window DayKind now"
    and s2: "sweep now2 clock2 db1 = (e2, tr2, db2)"
  shows "reminders_sent DayKind tr2 = [] \<and>
         reminders_sent DayKind (tr1 @ tr2) = reminders_sent DayKind tr1 \<and>
         (\<forall>p\<in>set (reminders_sent DayKind tr1). \<forall>a\<in>set (appointments db1).
             app_id a = snd p \<longrightarrow> reminder_sent_day a) \<and>
         (\<forall>lo hi. window DayKind now = Inr (lo, hi) \<longrightarrow>
            reminders_sent DayKind tr1 =
              map (\<lambda>(a, c, s, m). (c_telegram_id c, app_id a))
                (due_rows DayKind lo hi
                   (snd (snd (complete_loop clock 0 (past_apps db (strftime_db now)) db)))))"
proof -
  have "\<forall>lo hi. window DayKind now = Inr (lo, hi) \<longrightarrow>
            reminders_sent DayKind tr1 =
              map (\<lambda>(a, c, s, m). (c_telegram_id c, app_id a))
                (due_rows DayKind lo hi
                   (snd (snd (complete_loop clock 0 (past_apps db (strftime_db now)) db))))"
  proof (intro allI impI)
    fix lo hi assume win: "window DayKind now = Inr (lo, hi)"
    from sweep_decompose [OF s1] obtain t1 el dba ea t2 dbb t3 where
      p1: "complete_loop clock 0 (past_apps db (strftime_db now)) db = (t1, el, dba)"
      and p2: "remind_phase DayKind now el dba = (ea, t2, dbb)"
      and tr1: "tr1 = t1 @ t2 @ t3" and n3: "reminders_sent DayKind t3 = []"
      by (elim exE conjE) (rule that)
    obtain t2' dbb2 where l: "remind_loop DayKind el (due_rows DayKind lo hi dba) dba = (t2', dbb2)"
      by (metis surj_pair)
    with p2 win have "t2 = t2'" by (simp add: remind_phase_def)
    with remind_loop_day_trace [OF l]
    have "reminders_sent DayKind t2 =
          map (\<lambda>(a, c, s, m). (c_telegram_id c, app_id a)) (due_rows DayKind lo hi dba)" by simp
    then show "reminders_sent DayKind tr1 =
              map (\<lambda>(a, c, s, m). (c_telegram_id c, app_id a))
                (due_rows DayKind lo hi
                   (snd (snd (complete_loop clock 0 (past_apps db (strftime_db now)) db))))"
      by (simp add: tr1 reminders_sent_append n3 complete_loop_no_reminders [OF p1] p1)
  qed
  with day_reminder_core [OF assms] show ?thesis by blast
qed

theorem day_reminder_sent_once_witness:
  "window DayKind now1 = window DayKind now1 \<and>
   reminders_sent DayKind (fst (snd (sweep now1 clock1 sweep_db))) = [(501, 3)] \<and>
   reminders_sent DayKind
     (fst (snd (sweep now1 clock1 (snd (snd (sweep now1 clock1 sweep_db)))))) = [] \<and>
   map reminder_sent_day (appointments (snd (snd (sweep now1 clock1 sweep_db)))) =
     [False, False, True, False, False]"
proof -
  let ?r1 = "sweep now1 clock1 sweep_db"
  let ?r2 = "sweep now1 clock1 (snd (snd ?r1))"
  have r1: "?r1 = (fst ?r1, fst (snd ?r1), snd (snd ?r1))" by simp
  have r2: "?r2 = (fst ?r2, fst (snd ?r2), snd (snd ?r2))" by simp
  have a: "reminders_sent DayKind (fst (snd ?r1)) = [(501, 3)]" by code_simp
  have b: "map reminder_sent_day (appointments (snd (snd ?r1))) = [False, False, True, False, False]"
    by code_simp
  from day_reminder_sent_once [OF r1 refl r2]
  have "reminders_sent DayKind (fst (snd ?r2)) = []" by blast
  with a b show ?thesis by simp
qed

section \<open>Clearing the history\<close>



end
